theory Spec2Isabelle
  imports Main
begin

section \<open>The checker of pyanalyze: type objects, virtual bases, assumed compatibilities\<close>

text \<open>
  A shallow embedding of \<^verbatim>\<open>src/pyanalyze/checker.py\<close>. The class \<^verbatim>\<open>Checker\<close> keeps a
  cache of type objects and a stack of assumed compatibilities; both are mutable state,
  which the embedding passes explicitly. Exceptions are values of a sum type, with
  \<open>Inl\<close> the exception. Python sets are HOL sets, the cache dictionary is a map.
\<close>

subsection \<open>Exceptions, attribute reads\<close>

datatype exn = AssertionError | IndexError | AttributeError | TypeError | Exception string

text \<open>
  The outcome of reading one attribute of a runtime object: the attribute is there, or
  the read raises \<^verbatim>\<open>AttributeError\<close> because it is not, or the read raises something
  else (a property or a metaclass hook that fails).
\<close>

datatype 'a attr = Present 'a | Absent | Raises exn

text \<open>Python's \<^verbatim>\<open>obj.name\<close>.\<close>

fun getattr :: "'a attr \<Rightarrow> exn + 'a" where
  "getattr (Present v) = Inr v"
| "getattr Absent = Inl AttributeError"
| "getattr (Raises e) = Inl e"

text \<open>Python 3's \<^verbatim>\<open>hasattr\<close>: only \<^verbatim>\<open>AttributeError\<close> is turned into \<^verbatim>\<open>False\<close>.\<close>

fun hasattr :: "'a attr \<Rightarrow> exn + bool" where
  "hasattr (Present v) = Inr True"
| "hasattr Absent = Inr False"
| "hasattr (Raises e) = (if e = AttributeError then Inr False else Inl e)"

text \<open>
  Modelled from the spec: \<^verbatim>\<open>safe_getattr\<close> of \<^verbatim>\<open>pyanalyze/safe.py\<close>, which is not among
  the sources. The spec calls it a defensive attribute read that yields a default on
  error.
\<close>

fun safe_getattr :: "'a attr \<Rightarrow> 'a \<Rightarrow> 'a" where
  "safe_getattr (Present v) dflt = v"
| "safe_getattr Absent dflt = dflt"
| "safe_getattr (Raises e) dflt = dflt"

subsection \<open>Type keys and type objects\<close>

text \<open>
  A runtime class is known by its identity, a number. The argument of
  \<^verbatim>\<open>make_type_object\<close> is a \<^verbatim>\<open>Union[type, super, str]\<close>; the source tells the three
  apart with \<^verbatim>\<open>isinstance\<close>.
\<close>

type_synonym tid = nat

datatype key = Synthetic string | SuperProxy tid tid | Concrete tid

text \<open>The class \<^verbatim>\<open>object\<close>, which \<^verbatim>\<open>_extract_protocol_members\<close> compares by identity.\<close>

definition py_object :: tid where
  "py_object = 0"

text \<open>
  Modelled from the spec: the dataclass \<^verbatim>\<open>TypeObject\<close> of \<^verbatim>\<open>pyanalyze/type_object.py\<close>
  is not among the sources. Its four constructor arguments, as \<^verbatim>\<open>_build_type_object\<close>
  passes them, are the four fields of the spec's Type Descriptor; the two optional ones
  default to \<^verbatim>\<open>False\<close> and the empty set.
\<close>

record type_object =
  obj_typ :: key
  base_classes :: "key set"
  is_protocol :: bool
  protocol_members :: "string set"

definition TypeObject :: "key \<Rightarrow> key set \<Rightarrow> bool \<Rightarrow> string set \<Rightarrow> type_object" where
  "TypeObject k bases prot members =
     \<lparr>obj_typ = k, base_classes = bases, is_protocol = prot, protocol_members = members\<rparr>"

text \<open>
  The values that \<^verbatim>\<open>ts_finder.get_bases_recursively\<close> returns: \<^verbatim>\<open>_get_typeshed_bases\<close>
  keeps the \<^verbatim>\<open>TypedValue\<close>s and reads their \<^verbatim>\<open>typ\<close>.
\<close>

datatype val = TypedValue key | OtherValue

subsection \<open>The collaborators of the checker\<close>

text \<open>
  What the source reads from outside \<^verbatim>\<open>checker.py\<close>: the configured providers of
  additional bases (each may raise), the typeshed finder, the predicates of
  \<^verbatim>\<open>safe.py\<close>, \<^verbatim>\<open>get_mro\<close>, the attribute reads on runtime classes, the version of the
  interpreter, and whether the test \<^verbatim>\<open>typ in self.type_object_cache\<close> raises for a key
  (an unhashable one, for example).
\<close>

record env =
  providers :: "(key \<Rightarrow> exn + key set) list"
  get_bases_recursively :: "key \<Rightarrow> val list"
  ts_is_protocol :: "key \<Rightarrow> bool"
  get_all_attributes :: "key \<Rightarrow> string set"
  is_typing_name :: "key \<Rightarrow> string \<Rightarrow> bool"
  is_instance_of_typing_name :: "key \<Rightarrow> string \<Rightarrow> bool"
  get_mro :: "key \<Rightarrow> tid list"
  attr_is_protocol :: "tid \<Rightarrow> bool attr"
  attr_dict :: "tid \<Rightarrow> string list attr"
  attr_annotations :: "tid \<Rightarrow> string list attr"
  version_ge_3_10 :: bool
  contains_raises :: "key \<Rightarrow> bool"

subsection \<open>\<^verbatim>\<open>get_additional_bases\<close>\<close>

text \<open>
  \<^verbatim>\<open>
  bases = set()
  for provider in self.options.get_value_for(AdditionalBaseProviders):
      bases |= provider(typ)
  return bases
  \<close>
\<close>

fun additional_bases_loop ::
  "(key \<Rightarrow> exn + key set) list \<Rightarrow> key \<Rightarrow> key set \<Rightarrow> exn + key set" where
  "additional_bases_loop [] typ bases = Inr bases"
| "additional_bases_loop (provider # rest) typ bases =
     (case provider typ of
        Inl e \<Rightarrow> Inl e
      | Inr s \<Rightarrow> additional_bases_loop rest typ (bases \<union> s))"

definition get_additional_bases :: "env \<Rightarrow> key \<Rightarrow> exn + key set" where
  "get_additional_bases E typ = additional_bases_loop (providers E) typ {}"

subsection \<open>Protocol members\<close>

definition EXCLUDED_PROTOCOL_MEMBERS :: "string set" where
  "EXCLUDED_PROTOCOL_MEMBERS = {
     ''__abstractmethods__'',
     ''__annotations__'',
     ''__dict__'',
     ''__doc__'',
     ''__init__'',
     ''__new__'',
     ''__module__'',
     ''__parameters__'',
     ''__subclasshook__'',
     ''__weakref__'',
     ''_abc_impl'',
     ''_abc_cache'',
     ''_is_protocol'',
     ''__next_in_mro__'',
     ''_abc_generic_negative_cache_version'',
     ''__orig_bases__'',
     ''__args__'',
     ''_abc_registry'',
     ''__extra__'',
     ''_abc_generic_negative_cache'',
     ''__origin__'',
     ''__tree_hash__'',
     ''_gorg'',
     ''_is_runtime_protocol''}"

text \<open>
  \<^verbatim>\<open>
  if typ is object or is_typing_name(typ, "Generic") or is_typing_name(typ, "Protocol"):
      return set()
  members = set(typ.__dict__) - EXCLUDED_PROTOCOL_MEMBERS
  if sys.version_info >= (3, 10) or hasattr(typ, "__annotations__"):
      members |= set(typ.__annotations__)
  return members
  \<close>
  Both \<^verbatim>\<open>typ.__dict__\<close> and \<^verbatim>\<open>typ.__annotations__\<close> are plain attribute reads.
\<close>

definition extract_protocol_members :: "env \<Rightarrow> tid \<Rightarrow> exn + string set" where
  "extract_protocol_members E typ =
     (if typ = py_object \<or> is_typing_name E (Concrete typ) ''Generic''
         \<or> is_typing_name E (Concrete typ) ''Protocol''
      then Inr {}
      else
        (case getattr (attr_dict E typ) of
           Inl e \<Rightarrow> Inl e
         | Inr d \<Rightarrow>
            (let members = set d - EXCLUDED_PROTOCOL_MEMBERS in
             (case (if version_ge_3_10 E then Inr True else hasattr (attr_annotations E typ)) of
                Inl e \<Rightarrow> Inl e
              | Inr has \<Rightarrow>
                 (if has
                  then (case getattr (attr_annotations E typ) of
                          Inl e \<Rightarrow> Inl e
                        | Inr a \<Rightarrow> Inr (members \<union> set a))
                  else Inr members)))))"

text \<open>
  \<^verbatim>\<open>set(itertools.chain.from_iterable(_extract_protocol_members(base) for base in bases))\<close>:
  the bases are visited in order and the first exception ends the iteration.
\<close>

fun extract_all :: "env \<Rightarrow> tid list \<Rightarrow> exn + string set" where
  "extract_all E [] = Inr {}"
| "extract_all E (base # bases) =
     (case extract_protocol_members E base of
        Inl e \<Rightarrow> Inl e
      | Inr m \<Rightarrow>
          (case extract_all E bases of
             Inl e \<Rightarrow> Inl e
           | Inr ms \<Rightarrow> Inr (m \<union> ms)))"

text \<open>
  \<^verbatim>\<open>
  base_values = self.ts_finder.get_bases_recursively(typ)
  return set(base.typ for base in base_values if isinstance(base, TypedValue))
  \<close>
\<close>

definition get_typeshed_bases :: "env \<Rightarrow> key \<Rightarrow> key set" where
  "get_typeshed_bases E typ =
     set (List.map_filter (\<lambda>base. case base of TypedValue t \<Rightarrow> Some t | OtherValue \<Rightarrow> None)
            (get_bases_recursively E typ))"

text \<open>
  \<^verbatim>\<open>
  return set(itertools.chain.from_iterable(
      self.ts_finder.get_all_attributes(base) for base in bases))
  \<close>
\<close>

definition get_protocol_members :: "env \<Rightarrow> key set \<Rightarrow> string set" where
  "get_protocol_members E bases = (\<Union>base\<in>bases. get_all_attributes E base)"

subsection \<open>\<^verbatim>\<open>_build_type_object\<close>\<close>

text \<open>
  The method reads the options and the typeshed finder and writes nothing, so what it
  returns or raises is a function of the collaborators and the key. The three branches
  are the three \<^verbatim>\<open>isinstance\<close> cases of the source.
\<close>

fun build_type_object_result :: "env \<Rightarrow> key \<Rightarrow> exn + type_object" where
  "build_type_object_result E (Synthetic name) =
     (let typ = Synthetic name;
          bases = get_typeshed_bases E typ;
          is_prot = (\<exists>base\<in>bases. is_typing_name E base ''Protocol'');
          members = (if is_prot then get_protocol_members E bases else {})
      in Inr (TypeObject typ bases is_prot members))"
| "build_type_object_result E (SuperProxy c t) =
     (case get_additional_bases E (SuperProxy c t) of
        Inl e \<Rightarrow> Inl e
      | Inr additional_bases \<Rightarrow> Inr (TypeObject (SuperProxy c t) additional_bases False {}))"
| "build_type_object_result E (Concrete c) =
     (let typ = Concrete c in
      case get_additional_bases E typ of
        Inl e \<Rightarrow> Inl e
      | Inr additional_bases \<Rightarrow>
          if ts_is_protocol E typ
          then Inr (TypeObject typ additional_bases True
                      (get_protocol_members E (get_typeshed_bases E typ)))
          else if is_instance_of_typing_name E typ ''_ProtocolMeta''
                  \<and> safe_getattr (attr_is_protocol E c) False
          then (case extract_all E (get_mro E typ) of
                  Inl e \<Rightarrow> Inl e
                | Inr members \<Rightarrow> Inr (TypeObject typ additional_bases True members))
          else Inr (TypeObject typ additional_bases False {}))"

subsection \<open>The state of the checker\<close>

text \<open>
  \<open>type_object_cache\<close> and \<open>assumed_compatibilities\<close> are the two fields of
  \<^verbatim>\<open>Checker\<close> that the methods below write. A \<^verbatim>\<open>TypeObject\<close> is a Python object
  with an identity: \<open>objects\<close> is the store of the instances created so far, and the
  position of an instance in it is its identity, so that two references are the same
  object exactly when they are the same number. \<open>build_calls\<close> records every call of
  \<^verbatim>\<open>_build_type_object\<close>, whether it returns or raises; the program never reads it.
\<close>

record checker =
  objects :: "type_object list"
  type_object_cache :: "key \<rightharpoonup> nat"
  assumed_compatibilities :: "(type_object \<times> type_object) list"
  build_calls :: "key list"

definition new_checker :: checker where
  "new_checker = \<lparr>objects = [], type_object_cache = Map.empty,
                   assumed_compatibilities = [], build_calls = []\<rparr>"

text \<open>One call of \<^verbatim>\<open>self._build_type_object(typ)\<close>: the new instance is stored on return.\<close>

definition build_type_object :: "env \<Rightarrow> checker \<Rightarrow> key \<Rightarrow> (exn + nat) \<times> checker" where
  "build_type_object E C typ =
     (let C1 = C\<lparr>build_calls := build_calls C @ [typ]\<rparr> in
      case build_type_object_result E typ of
        Inl e \<Rightarrow> (Inl e, C1)
      | Inr obj \<Rightarrow> (Inr (length (objects C1)), C1\<lparr>objects := objects C1 @ [obj]\<rparr>))"

text \<open>
  \<^verbatim>\<open>
  try:
      in_cache = typ in self.type_object_cache
  except Exception:
      return self._build_type_object(typ)
  if in_cache:
      return self.type_object_cache[typ]
  type_object = self._build_type_object(typ)
  self.type_object_cache[typ] = type_object
  return type_object
  \<close>
\<close>

definition make_type_object :: "env \<Rightarrow> checker \<Rightarrow> key \<Rightarrow> (exn + nat) \<times> checker" where
  "make_type_object E C typ =
     (if contains_raises E typ then build_type_object E C typ
      else
        (case type_object_cache C typ of
           Some type_obj \<Rightarrow> (Inr type_obj, C)
         | None \<Rightarrow>
            (case build_type_object E C typ of
               (Inl e, C1) \<Rightarrow> (Inl e, C1)
             | (Inr type_obj, C1) \<Rightarrow>
                 (Inr type_obj,
                  C1\<lparr>type_object_cache := (type_object_cache C1)(typ \<mapsto> type_obj)\<rparr>))))"

subsection \<open>Assumed compatibilities\<close>

text \<open>\<^verbatim>\<open>return (left, right) in self.assumed_compatibilities\<close>\<close>

definition can_assume_compatibility :: "checker \<Rightarrow> type_object \<Rightarrow> type_object \<Rightarrow> bool" where
  "can_assume_compatibility C left right = ((left, right) \<in> set (assumed_compatibilities C))"

text \<open>
  The context manager \<^verbatim>\<open>assume_compatibility\<close> is a generator with one \<^verbatim>\<open>yield\<close>
  inside \<^verbatim>\<open>try ... finally\<close>. Entering the \<^verbatim>\<open>with\<close> statement runs it up to the
  \<^verbatim>\<open>yield\<close>:
  \<^verbatim>\<open>
  pair = (left, right)
  self.assumed_compatibilities.append(pair)
  \<close>
\<close>

definition assume_compatibility_enter :: "checker \<Rightarrow> type_object \<Rightarrow> type_object \<Rightarrow> checker" where
  "assume_compatibility_enter C left right =
     C\<lparr>assumed_compatibilities := assumed_compatibilities C @ [(left, right)]\<rparr>"

text \<open>
  Leaving the \<^verbatim>\<open>with\<close> statement, whether its body returned or raised, runs the
  \<^verbatim>\<open>finally\<close> clause:
  \<^verbatim>\<open>
  new_pair = self.assumed_compatibilities.pop()
  assert pair == new_pair
  \<close>
  \<^verbatim>\<open>pop\<close> raises \<^verbatim>\<open>IndexError\<close> on an empty list. An exception of the clause
  replaces the outcome of the body.
\<close>

definition assume_compatibility_exit ::
  "checker \<Rightarrow> type_object \<Rightarrow> type_object \<Rightarrow> exn + 'r \<Rightarrow> (exn + 'r) \<times> checker" where
  "assume_compatibility_exit C left right outcome =
     (if assumed_compatibilities C = [] then (Inl IndexError, C)
      else
        (let new_pair = last (assumed_compatibilities C);
             C1 = C\<lparr>assumed_compatibilities := butlast (assumed_compatibilities C)\<rparr>
         in if (left, right) = new_pair then (outcome, C1) else (Inl AssertionError, C1)))"

text \<open>
  \<^verbatim>\<open>with self.assume_compatibility(left, right): body\<close>, the body being any code that
  works on the checker and returns or raises.
\<close>

definition assume_compatibility ::
  "checker \<Rightarrow> type_object \<Rightarrow> type_object \<Rightarrow> (checker \<Rightarrow> (exn + 'r) \<times> checker)
     \<Rightarrow> (exn + 'r) \<times> checker" where
  "assume_compatibility C left right body =
     (case body (assume_compatibility_enter C left right) of
        (outcome, C2) \<Rightarrow> assume_compatibility_exit C2 left right outcome)"

text \<open>
  Properly nested use: a block of work is a sequence of steps, a step is a query of the
  stack, a \<^verbatim>\<open>raise\<close>, or a \<^verbatim>\<open>with\<close> statement around a block. A raise ends the
  enclosing blocks, each running its \<^verbatim>\<open>finally\<close> clause on the way out.
\<close>

datatype work =
    Query type_object type_object
  | Raise exn
  | Assume type_object type_object "work list"

fun run :: "work \<Rightarrow> checker \<Rightarrow> (exn + unit) \<times> checker"
and run_block :: "work list \<Rightarrow> checker \<Rightarrow> (exn + unit) \<times> checker" where
  "run (Query left right) C = (Inr (), C)"
| "run (Raise e) C = (Inl e, C)"
| "run (Assume left right ws) C = assume_compatibility C left right (\<lambda>C1. run_block ws C1)"
| "run_block [] C = (Inr (), C)"
| "run_block (w # ws) C =
     (case run w C of
        (Inl e, C1) \<Rightarrow> (Inl e, C1)
      | (Inr u, C1) \<Rightarrow> run_block ws C1)"

text \<open>The exceptions that the \<^verbatim>\<open>raise\<close> steps of a block can raise.\<close>

fun raised :: "work \<Rightarrow> exn set"
and raised_block :: "work list \<Rightarrow> exn set" where
  "raised (Query left right) = {}"
| "raised (Raise e) = {e}"
| "raised (Assume left right ws) = raised_block ws"
| "raised_block [] = {}"
| "raised_block (w # ws) = raised w \<union> raised_block ws"

subsection \<open>A run of the checker\<close>


subsection \<open>The states inside a scope\<close>

text \<open>
  The checker as the steps of a block find it and leave it, the blocks of nested
  \<^verbatim>\<open>with\<close> statements included: every state of the checker between the entry of a block
  and its end. For the body \<open>ws\<close> of \<^verbatim>\<open>with self.assume_compatibility(left, right)\<close>
  entered on the checker \<open>C\<close>, the states inside the dynamic extent of the statement are
  \<open>states_block ws (assume_compatibility_enter C left right)\<close>.
\<close>

fun states :: "work \<Rightarrow> checker \<Rightarrow> checker list"
and states_block :: "work list \<Rightarrow> checker \<Rightarrow> checker list" where
  "states (Query left right) C = [C]"
| "states (Raise e) C = [C]"
| "states (Assume left right ws) C = states_block ws (assume_compatibility_enter C left right)"
| "states_block [] C = [C]"
| "states_block (w # ws) C =
     C # states w C @
       (case run w C of
          (Inl e, C1) \<Rightarrow> [C1]
        | (Inr u, C1) \<Rightarrow> states_block ws C1)"

text \<open>The pairs that the \<^verbatim>\<open>with\<close> statements of a block push.\<close>

fun pushed :: "work \<Rightarrow> (type_object \<times> type_object) set"
and pushed_block :: "work list \<Rightarrow> (type_object \<times> type_object) set" where
  "pushed (Query left right) = {}"
| "pushed (Raise e) = {}"
| "pushed (Assume left right ws) = insert (left, right) (pushed_block ws)"
| "pushed_block [] = {}"
| "pushed_block (w # ws) = pushed w \<union> pushed_block ws"

subsection \<open>Predicates for the properties\<close>

text \<open>
  A class of an MRO that \<^verbatim>\<open>_extract_protocol_members\<close> can read: it is \<^verbatim>\<open>object\<close>,
  \<^verbatim>\<open>Generic\<close> or \<^verbatim>\<open>Protocol\<close> (nothing is read then), or reading its \<^verbatim>\<open>__dict__\<close>
  succeeds and its \<^verbatim>\<open>__annotations__\<close> either can be read or, on an interpreter older
  than 3.10, are found absent by \<^verbatim>\<open>hasattr\<close>.
\<close>

definition readable_class :: "env \<Rightarrow> tid \<Rightarrow> bool" where
  "readable_class E c =
     (c = py_object \<or> is_typing_name E (Concrete c) ''Generic''
      \<or> is_typing_name E (Concrete c) ''Protocol''
      \<or> ((\<exists>d. attr_dict E c = Present d)
          \<and> ((\<exists>a. attr_annotations E c = Present a)
              \<or> (\<not> version_ge_3_10 E \<and> hasattr (attr_annotations E c) = Inr False))))"



subsection \<open>Example collaborators\<close>

text \<open>
  A small world to evaluate the definitions on. The classes 0, 1 and 2 are
  \<^verbatim>\<open>object\<close>, \<^verbatim>\<open>Generic\<close> and \<^verbatim>\<open>Protocol\<close>. Class 10 is a protocol in the stubs and
  at runtime, with different members. Classes 30 to 70 are protocols at runtime only:
  30 annotates \<^verbatim>\<open>__doc__\<close>, reading \<^verbatim>\<open>__dict__\<close> of 40 raises, 50 has no
  \<^verbatim>\<open>__annotations__\<close>, reading \<^verbatim>\<open>_is_protocol\<close> of 60 raises, reading
  \<^verbatim>\<open>__annotations__\<close> of 70 raises. The membership test of the
  cache raises for class 20. The first provider is the one of the docstring of
  \<^verbatim>\<open>AdditionalBaseProviders\<close>, with 11 for \<^verbatim>\<open>B\<close> and 10 for \<^verbatim>\<open>A\<close>.
\<close>

definition provider_A :: "key \<Rightarrow> exn + key set" where
  "provider_A typ = (if typ = Concrete 11 then Inr {Concrete 10} else Inr {})"

definition provider_Y :: "key \<Rightarrow> exn + key set" where
  "provider_Y typ = (if typ = Concrete 11 then Inr {Concrete 12} else Inr {})"

definition provider_raising :: "key \<Rightarrow> exn + key set" where
  "provider_raising typ = Inl (Exception ''provider failed'')"

definition env_ex :: env where
  "env_ex = \<lparr>
     providers = [provider_A, provider_Y],
     get_bases_recursively = (\<lambda>typ.
       if typ = Concrete 10
         then [TypedValue (Concrete 10), OtherValue, TypedValue (Synthetic ''typing.Protocol'')]
       else if typ = Synthetic ''mod.SupportsFoo''
         then [TypedValue (Synthetic ''typing.Protocol''), TypedValue (Synthetic ''mod.Base'')]
       else if typ = Synthetic ''mod.Plain''
         then [TypedValue (Synthetic ''mod.Base''), OtherValue]
       else []),
     ts_is_protocol = (\<lambda>typ. typ = Concrete 10),
     get_all_attributes = (\<lambda>typ.
       if typ = Concrete 10 then {''foo''}
       else if typ = Synthetic ''mod.Base'' then {''foo'', ''baz''}
       else {}),
     is_typing_name = (\<lambda>typ name.
       (typ = Concrete 1 \<and> name = ''Generic'') \<or> (typ = Concrete 2 \<and> name = ''Protocol'')
       \<or> (typ = Synthetic ''typing.Protocol'' \<and> name = ''Protocol'')),
     is_instance_of_typing_name = (\<lambda>typ name.
       typ \<in> {Concrete 2, Concrete 10, Concrete 30, Concrete 40, Concrete 50, Concrete 60,
                Concrete 70}
       \<and> name = ''_ProtocolMeta''),
     get_mro = (\<lambda>typ. case typ of Concrete c \<Rightarrow> (if c = 0 then [0] else if c = 1 then [1, 0]
                  else if c = 2 then [2, 1, 0] else [c, 2, 1, 0]) | _ \<Rightarrow> []),
     attr_is_protocol = (\<lambda>c. if c \<in> {2, 10, 30, 40, 50, 70} then Present True
                             else if c = 60 then Raises (Exception ''broken'') else Absent),
     attr_dict = (\<lambda>c.
       if c = 10 then Present [''__module__'', ''bar'']
       else if c = 30 then Present [''__module__'', ''__annotations__'', ''meth'', ''_is_protocol'']
       else if c = 40 then Raises (Exception ''broken'')
       else if c = 50 then Present [''__module__'', ''meth'']
       else Present [''__module__'', ''__doc__'']),
     attr_annotations = (\<lambda>c.
       if c = 30 then Present [''__doc__'', ''field'']
       else if c = 50 then Absent
       else if c = 70 then Raises (Exception ''broken'')
       else Present []),
     version_ge_3_10 = True,
     contains_raises = (\<lambda>typ. typ = Concrete 20)\<rparr>"

text \<open>
  Two type objects, and a block of properly nested work in which the innermost block
  raises.
\<close>

definition obj_A :: type_object where
  "obj_A = TypeObject (Concrete 10) {} True {''foo''}"

definition obj_B :: type_object where
  "obj_B = TypeObject (Concrete 11) {Concrete 10} False {}"

definition nested_work :: "work list" where
  "nested_work =
     [Assume obj_A obj_B
        [Query obj_A obj_B,
         Assume obj_B obj_A [Assume obj_A obj_B [], Raise (Exception ''incompatible'')],
         Query obj_B obj_A]]"

section \<open>Properties\<close>

subsection \<open>Additional bases\<close>

text \<open>When no provider raises, the loop returns the union of what the providers return.\<close>

lemma additional_bases_loop_returns:
  "\<forall>p\<in>set ps. \<not> isl (p k) \<Longrightarrow>
   additional_bases_loop ps k acc = Inr (acc \<union> (\<Union>p\<in>set ps. projr (p k)))"
  by (induction ps arbitrary: acc) (auto split: sum.splits)

text \<open>
  Claim C9. When no registered provider raises for the key \<open>k\<close>,
  \<^verbatim>\<open>get_additional_bases\<close> returns the union of \<open>provider(k)\<close> over the registered
  providers: with two providers returning \<open>{X}\<close> and \<open>{Y}\<close> the result is \<open>{X, Y}\<close>, and
  any other registration with the same set of providers (one registered twice, or in
  another order) gives the same set.
\<close>

theorem get_additional_bases_union:
  assumes "\<forall>p\<in>set (providers E). \<not> isl (p k)"
  shows "get_additional_bases E k = Inr (\<Union>p\<in>set (providers E). projr (p k))
       \<and> (providers E = [P1, P2] \<and> P1 k = Inr {X} \<and> P2 k = Inr {Y}
            \<longrightarrow> get_additional_bases E k = Inr {X, Y})
       \<and> (\<forall>E'. set (providers E') = set (providers E)
            \<longrightarrow> get_additional_bases E' k = get_additional_bases E k)"
proof -
  have u: "get_additional_bases E k = Inr (\<Union>p\<in>set (providers E). projr (p k))"
    using assms by (simp add: get_additional_bases_def additional_bases_loop_returns)
  have two: "get_additional_bases E k = Inr {X, Y}"
    if "providers E = [P1, P2]" "P1 k = Inr {X}" "P2 k = Inr {Y}"
    using that u by auto
  have same: "get_additional_bases E' k = get_additional_bases E k"
    if "set (providers E') = set (providers E)" for E'
  proof -
    have "\<forall>p\<in>set (providers E'). \<not> isl (p k)" using assms that by simp
    then have "get_additional_bases E' k = Inr (\<Union>p\<in>set (providers E'). projr (p k))"
      by (simp add: get_additional_bases_def additional_bases_loop_returns)
    then show ?thesis using u that by simp
  qed
  show ?thesis using u two same by blast
qed

text \<open>
  The two providers of the example for class 11, and the same with the order changed and
  one provider registered twice.
\<close>

theorem get_additional_bases_union_witness:
  "get_additional_bases env_ex (Concrete 11) = Inr {Concrete 10, Concrete 12}
   \<and> get_additional_bases (env_ex\<lparr>providers := [provider_Y, provider_A, provider_A]\<rparr>) (Concrete 11)
       = Inr {Concrete 10, Concrete 12}"
proof -
  have h: "\<forall>p\<in>set (providers env_ex). \<not> isl (p (Concrete 11))"
    by (simp add: env_ex_def provider_A_def provider_Y_def)
  have p: "providers env_ex = [provider_A, provider_Y]
           \<and> provider_A (Concrete 11) = Inr {Concrete 10}
           \<and> provider_Y (Concrete 11) = Inr {Concrete 12}"
    by (simp add: env_ex_def provider_A_def provider_Y_def)
  have s: "set (providers (env_ex\<lparr>providers := [provider_Y, provider_A, provider_A]\<rparr>))
           = set (providers env_ex)"
    by (auto simp add: env_ex_def)
  from get_additional_bases_union [OF h, of provider_A provider_Y "Concrete 10" "Concrete 12"] p s
  show ?thesis by metis
qed

subsection \<open>Building a type object\<close>




text \<open>
  Claim C8. For a synthetic type, whatever providers are registered, the type object built
  has \<open>is_protocol\<close> true exactly when one of its typeshed bases is \<^verbatim>\<open>Protocol\<close>; then
  its \<open>protocol_members\<close> are the union of \<^verbatim>\<open>get_all_attributes\<close> over those bases, and
  otherwise there are none. No provider is called: the result is the same for every list of
  providers, also for providers that raise.
\<close>

theorem synthetic_type_object:
  "build_type_object_result (E\<lparr>providers := ps\<rparr>) (Synthetic name) =
     Inr (TypeObject (Synthetic name) (get_typeshed_bases E (Synthetic name))
            (\<exists>base\<in>get_typeshed_bases E (Synthetic name). is_typing_name E base ''Protocol'')
            (if \<exists>base\<in>get_typeshed_bases E (Synthetic name). is_typing_name E base ''Protocol''
             then \<Union>base\<in>get_typeshed_bases E (Synthetic name). get_all_attributes E base
             else {}))"
  by (simp add: Let_def get_protocol_members_def get_typeshed_bases_def)

text \<open>A synthetic protocol and a synthetic class, with a provider that always raises.\<close>

theorem synthetic_type_object_witness:
  "build_type_object_result (env_ex\<lparr>providers := [provider_raising]\<rparr>) (Synthetic ''mod.SupportsFoo'')
     = Inr (TypeObject (Synthetic ''mod.SupportsFoo'')
              {Synthetic ''typing.Protocol'', Synthetic ''mod.Base''} True {''foo'', ''baz''})
   \<and> build_type_object_result (env_ex\<lparr>providers := [provider_raising]\<rparr>) (Synthetic ''mod.Plain'')
     = Inr (TypeObject (Synthetic ''mod.Plain'') {Synthetic ''mod.Base''} False {})"
proof -
  have b1: "get_typeshed_bases env_ex (Synthetic ''mod.SupportsFoo'')
            = {Synthetic ''typing.Protocol'', Synthetic ''mod.Base''}"
    by (simp add: env_ex_def get_typeshed_bases_def List.map_filter_def)
  have b2: "get_typeshed_bases env_ex (Synthetic ''mod.Plain'') = {Synthetic ''mod.Base''}"
    by (simp add: env_ex_def get_typeshed_bases_def List.map_filter_def)
  have n: "is_typing_name env_ex (Synthetic ''typing.Protocol'') ''Protocol''
           \<and> \<not> is_typing_name env_ex (Synthetic ''mod.Base'') ''Protocol''"
    by (simp add: env_ex_def)
  have a: "get_all_attributes env_ex (Synthetic ''typing.Protocol'') = {}
           \<and> get_all_attributes env_ex (Synthetic ''mod.Base'') = {''foo'', ''baz''}"
    by (simp add: env_ex_def)
  show ?thesis
    using synthetic_type_object [where E = env_ex and ps = "[provider_raising]"
        and name = "''mod.SupportsFoo''"]
      synthetic_type_object [where E = env_ex and ps = "[provider_raising]"
        and name = "''mod.Plain''"]
    unfolding b1 b2 using n a by simp
qed

subsection \<open>The cache of type objects\<close>

text \<open>
  Claim C6. When the membership test of the cache raises for a key, \<^verbatim>\<open>make_type_object\<close>
  does what a bare call of \<^verbatim>\<open>_build_type_object\<close> does: the cache is left as it was, the
  builder is called once, and when the builder returns, the result is a new type object,
  one that did not exist before the call. The only exception that can reach the caller is
  one that the builder raises.
\<close>

theorem make_type_object_unhashable:
  assumes "contains_raises E k"
  shows "make_type_object E C k = build_type_object E C k
       \<and> type_object_cache (snd (make_type_object E C k)) = type_object_cache C
       \<and> build_calls (snd (make_type_object E C k)) = build_calls C @ [k]
       \<and> (\<forall>obj. build_type_object_result E k = Inr obj \<longrightarrow>
             fst (make_type_object E C k) = Inr (length (objects C))
           \<and> objects (snd (make_type_object E C k)) = objects C @ [obj])
       \<and> (\<forall>e. fst (make_type_object E C k) = Inl e \<longrightarrow> build_type_object_result E k = Inl e)"
  using assms
  by (auto simp: make_type_object_def build_type_object_def Let_def split: sum.splits)

text \<open>Class 20 of the example, on a new checker.\<close>

theorem make_type_object_unhashable_witness:
  "contains_raises env_ex (Concrete 20)
   \<and> fst (make_type_object env_ex new_checker (Concrete 20)) = Inr 0
   \<and> objects (snd (make_type_object env_ex new_checker (Concrete 20)))
       = [TypeObject (Concrete 20) {} False {}]
   \<and> type_object_cache (snd (make_type_object env_ex new_checker (Concrete 20))) = Map.empty"
proof -
  have h: "contains_raises env_ex (Concrete 20)" by (simp add: env_ex_def)
  have b: "build_type_object_result env_ex (Concrete 20) = Inr (TypeObject (Concrete 20) {} False {})"
    by (simp add: env_ex_def get_additional_bases_def provider_A_def provider_Y_def)
  note t = make_type_object_unhashable [OF h, of new_checker]
  have c: "type_object_cache (snd (make_type_object env_ex new_checker (Concrete 20)))
           = type_object_cache new_checker"
    using t by blast
  have r: "fst (make_type_object env_ex new_checker (Concrete 20)) = Inr (length (objects new_checker))
         \<and> objects (snd (make_type_object env_ex new_checker (Concrete 20)))
             = objects new_checker @ [TypeObject (Concrete 20) {} False {}]"
    using t b by blast
  have n: "objects new_checker = [] \<and> type_object_cache new_checker = Map.empty"
    by (simp add: new_checker_def)
  show ?thesis using h c r n by simp
qed

text \<open>
  Claim C10. When the membership test does not raise, the key is not in the cache and
  \<^verbatim>\<open>_build_type_object\<close> raises, \<^verbatim>\<open>make_type_object\<close> raises the same exception, the cache
  and the stored type objects are left as they were, and a second call with the same key
  calls the builder again.
\<close>

theorem make_type_object_build_raises:
  assumes "\<not> contains_raises E k"
    and "type_object_cache C k = None"
    and "build_type_object_result E k = Inl e"
  shows "fst (make_type_object E C k) = Inl e
       \<and> type_object_cache (snd (make_type_object E C k)) = type_object_cache C
       \<and> objects (snd (make_type_object E C k)) = objects C
       \<and> build_calls (snd (make_type_object E C k)) = build_calls C @ [k]
       \<and> fst (make_type_object E (snd (make_type_object E C k)) k) = Inl e
       \<and> build_calls (snd (make_type_object E (snd (make_type_object E C k)) k))
           = build_calls C @ [k, k]"
  using assms
  by (simp add: make_type_object_def build_type_object_def Let_def)

text \<open>A provider that raises, registered after one that returns, for class 11.\<close>

theorem make_type_object_build_raises_witness:
  "build_type_object_result (env_ex\<lparr>providers := [provider_A, provider_raising]\<rparr>) (Concrete 11)
     = Inl (Exception ''provider failed'')
   \<and> fst (make_type_object (env_ex\<lparr>providers := [provider_A, provider_raising]\<rparr>) new_checker
            (Concrete 11)) = Inl (Exception ''provider failed'')
   \<and> type_object_cache (snd (make_type_object (env_ex\<lparr>providers := [provider_A, provider_raising]\<rparr>)
            new_checker (Concrete 11))) = Map.empty
   \<and> build_calls (snd (make_type_object (env_ex\<lparr>providers := [provider_A, provider_raising]\<rparr>)
        (snd (make_type_object (env_ex\<lparr>providers := [provider_A, provider_raising]\<rparr>)
            new_checker (Concrete 11))) (Concrete 11))) = [Concrete 11, Concrete 11]"
proof -
  let ?E = "env_ex\<lparr>providers := [provider_A, provider_raising]\<rparr>"
  have a: "\<not> contains_raises ?E (Concrete 11)" by (simp add: env_ex_def)
  have b: "type_object_cache new_checker (Concrete 11) = None" by (simp add: new_checker_def)
  have c: "build_type_object_result ?E (Concrete 11) = Inl (Exception ''provider failed'')"
    by (simp add: env_ex_def get_additional_bases_def provider_A_def provider_raising_def)
  have n: "build_calls new_checker = [] \<and> type_object_cache new_checker = Map.empty"
    by (simp add: new_checker_def)
  show ?thesis
    using make_type_object_build_raises [OF a b c] c n by simp
qed

subsection \<open>The stack of assumed compatibilities\<close>

text \<open>
  When the body of the \<^verbatim>\<open>with\<close> statement leaves the stack as it found it, the
  \<^verbatim>\<open>finally\<close> clause pops the pair that was pushed and the outcome of the body is the
  outcome of the statement. Properly nested work leaves the stack as it found it, and
  raises only what one of its \<^verbatim>\<open>raise\<close> steps raises.
\<close>

lemma assume_compatibility_exit_balanced:
  "assumed_compatibilities C2 = assumed_compatibilities C @ [(left, right)] \<Longrightarrow>
   assume_compatibility_exit C2 left right outcome =
     (outcome, C2\<lparr>assumed_compatibilities := assumed_compatibilities C\<rparr>)"
  by (simp add: assume_compatibility_exit_def)

lemma assume_compatibility_balanced_body:
  assumes "assumed_compatibilities (snd (body (assume_compatibility_enter C left right)))
           = assumed_compatibilities (assume_compatibility_enter C left right)"
  shows "assume_compatibility C left right body =
           (fst (body (assume_compatibility_enter C left right)),
            (snd (body (assume_compatibility_enter C left right)))
              \<lparr>assumed_compatibilities := assumed_compatibilities C\<rparr>)"
proof -
  obtain out C2 where b: "body (assume_compatibility_enter C left right) = (out, C2)"
    by (cases "body (assume_compatibility_enter C left right)")
  with assms have "assumed_compatibilities C2 = assumed_compatibilities C @ [(left, right)]"
    by (simp add: assume_compatibility_enter_def)
  then show ?thesis
    using b by (simp add: assume_compatibility_def assume_compatibility_exit_balanced)
qed

lemma run_stack:
  "assumed_compatibilities (snd (run w C)) = assumed_compatibilities C"
  "assumed_compatibilities (snd (run_block ws C)) = assumed_compatibilities C"
proof (induction w C and ws C rule: run_run_block.induct)
  case (3 left right ws C)
  then show ?case by (simp add: assume_compatibility_balanced_body)
next
  case (5 w ws C)
  then show ?case by (auto split: prod.splits sum.splits)
qed simp_all

lemma run_raised:
  "fst (run w C) = Inl e \<Longrightarrow> e \<in> raised w"
  "fst (run_block ws C) = Inl e \<Longrightarrow> e \<in> raised_block ws"
proof (induction w C and ws C rule: run_run_block.induct)
  case (3 left right ws C)
  then show ?case by (simp add: assume_compatibility_balanced_body run_stack)
next
  case (5 w ws C)
  then show ?case by (auto split: prod.splits sum.splits)
qed simp_all

lemma assume_compatibility_mismatch:
  assumes "body (assume_compatibility_enter C left right) = (outcome, C2)"
    and "assumed_compatibilities C2 = [] \<or> last (assumed_compatibilities C2) \<noteq> (left, right)"
  shows "fst (assume_compatibility C left right body) = Inl IndexError
       \<or> fst (assume_compatibility C left right body) = Inl AssertionError"
  using assms by (auto simp: assume_compatibility_def assume_compatibility_exit_def Let_def)

text \<open>
  Claim C4. Properly nested \<^verbatim>\<open>with\<close> statements leave the stack of assumed
  compatibilities as they found it, so its length after the last exit is its length before
  the first entry, also when a step inside raises: the only exceptions that come out are
  the ones the steps raise, so the assertion of the \<^verbatim>\<open>finally\<close> clause never fails. And
  for any body at all, when the pair on top of the stack at exit is not the pair pushed at
  entry (or the stack is empty), the statement ends with \<^verbatim>\<open>AssertionError\<close> (or the
  \<^verbatim>\<open>IndexError\<close> of \<^verbatim>\<open>pop\<close>), whatever the body returned or raised.
\<close>

theorem assume_compatibility_stack_balance:
  "assumed_compatibilities (snd (run_block ws C)) = assumed_compatibilities C
   \<and> length (assumed_compatibilities (snd (run_block ws C))) = length (assumed_compatibilities C)
   \<and> (\<forall>e. fst (run_block ws C) = Inl e \<longrightarrow> e \<in> raised_block ws)
   \<and> (AssertionError \<notin> raised_block ws \<longrightarrow> fst (run_block ws C) \<noteq> Inl AssertionError)
   \<and> (\<forall>body outcome C2.
         body (assume_compatibility_enter C left right) = (outcome, C2)
         \<and> (assumed_compatibilities C2 = []
              \<or> last (assumed_compatibilities C2) \<noteq> (left, right))
         \<longrightarrow> fst (assume_compatibility C left right body) = Inl IndexError
           \<or> fst (assume_compatibility C left right body) = Inl AssertionError)"
proof -
  have a: "assumed_compatibilities (snd (run_block ws C)) = assumed_compatibilities C"
    by (rule run_stack)
  have b: "\<forall>e. fst (run_block ws C) = Inl e \<longrightarrow> e \<in> raised_block ws"
    by (simp add: run_raised)
  have c: "\<forall>body outcome C2.
         body (assume_compatibility_enter C left right) = (outcome, C2)
         \<and> (assumed_compatibilities C2 = []
              \<or> last (assumed_compatibilities C2) \<noteq> (left, right))
         \<longrightarrow> fst (assume_compatibility C left right body) = Inl IndexError
           \<or> fst (assume_compatibility C left right body) = Inl AssertionError"
    using assume_compatibility_mismatch by blast
  show ?thesis using a b c by auto
qed

text \<open>
  The nested work of the example, whose innermost block raises, on a stack that holds one
  pair already; a body that pushes a pair and leaves it; a body that empties the stack.
\<close>

theorem assume_compatibility_stack_balance_witness:
  "fst (run_block nested_work (new_checker\<lparr>assumed_compatibilities := [(obj_B, obj_B)]\<rparr>))
     = Inl (Exception ''incompatible'')
   \<and> assumed_compatibilities
        (snd (run_block nested_work (new_checker\<lparr>assumed_compatibilities := [(obj_B, obj_B)]\<rparr>)))
     = [(obj_B, obj_B)]
   \<and> AssertionError \<notin> raised_block nested_work
   \<and> fst (assume_compatibility new_checker obj_A obj_B
            (\<lambda>C. (Inr (), C\<lparr>assumed_compatibilities := assumed_compatibilities C @ [(obj_B, obj_A)]\<rparr>)))
     = Inl AssertionError
   \<and> fst (assume_compatibility new_checker obj_A obj_B
            (\<lambda>C. (Inr (), C\<lparr>assumed_compatibilities := []\<rparr>)))
     = Inl IndexError"
proof -
  let ?C = "new_checker\<lparr>assumed_compatibilities := [(obj_B, obj_B)]\<rparr>"
  note t = assume_compatibility_stack_balance [of nested_work ?C obj_A obj_B]
  have "assumed_compatibilities (snd (run_block nested_work ?C)) = assumed_compatibilities ?C"
    using t by (rule conjunct1)
  then have s: "assumed_compatibilities (snd (run_block nested_work ?C)) = [(obj_B, obj_B)]"
    by simp
  have ne: "obj_A \<noteq> obj_B" by (simp add: obj_A_def obj_B_def TypeObject_def)
  have r: "fst (run_block nested_work ?C) = Inl (Exception ''incompatible'')"
    using ne by (simp add: nested_work_def assume_compatibility_def assume_compatibility_enter_def
        assume_compatibility_exit_def Let_def)
  have n: "AssertionError \<notin> raised_block nested_work" by (simp add: nested_work_def)
  have m1: "fst (assume_compatibility new_checker obj_A obj_B
            (\<lambda>C. (Inr (), C\<lparr>assumed_compatibilities := assumed_compatibilities C @ [(obj_B, obj_A)]\<rparr>)))
     = Inl AssertionError"
    using ne by (simp add: assume_compatibility_def assume_compatibility_enter_def
        assume_compatibility_exit_def Let_def)
  have m2: "fst (assume_compatibility new_checker obj_A obj_B
            (\<lambda>C. (Inr (), C\<lparr>assumed_compatibilities := []\<rparr>)))
     = Inl IndexError"
    by (simp add: assume_compatibility_def assume_compatibility_enter_def
        assume_compatibility_exit_def Let_def)
  show ?thesis using s r n m1 m2 by simp
qed

text \<open>
  At every state inside a block the stack is the stack at the entry of the block with
  pairs pushed on top of it, and those pairs are pairs that the block pushes.
\<close>

lemma states_prefix:
  "\<forall>S\<in>set (states w C). \<exists>suffix. assumed_compatibilities S = assumed_compatibilities C @ suffix"
  "\<forall>S\<in>set (states_block ws C).
     \<exists>suffix. assumed_compatibilities S = assumed_compatibilities C @ suffix"
proof (induction w C and ws C rule: states_states_block.induct)
  case (3 left right ws C)
  then show ?case by (fastforce simp: assume_compatibility_enter_def)
next
  case (5 w ws C)
  obtain r C1 where step: "run w C = (r, C1)" by (cases "run w C")
  have same: "assumed_compatibilities C1 = assumed_compatibilities C"
    using run_stack(1) [of w C] step by simp
  show ?case
  proof (cases r)
    case (Inl e)
    then show ?thesis using 5(1) step same by auto
  next
    case (Inr u)
    then show ?thesis using 5(1) 5(2) [OF step [symmetric, unfolded Inr]] step same
      by auto
  qed
qed simp_all

lemma states_pushed:
  "\<forall>S\<in>set (states w C).
     set (assumed_compatibilities S) \<subseteq> set (assumed_compatibilities C) \<union> pushed w"
  "\<forall>S\<in>set (states_block ws C).
     set (assumed_compatibilities S) \<subseteq> set (assumed_compatibilities C) \<union> pushed_block ws"
proof (induction w C and ws C rule: states_states_block.induct)
  case (3 left right ws C)
  then show ?case by (fastforce simp: assume_compatibility_enter_def)
next
  case (5 w ws C)
  obtain r C1 where step: "run w C = (r, C1)" by (cases "run w C")
  have same: "assumed_compatibilities C1 = assumed_compatibilities C"
    using run_stack(1) [of w C] step by simp
  show ?case
  proof (cases r)
    case (Inl e)
    then show ?thesis using 5(1) step same by auto
  next
    case (Inr u)
    then show ?thesis using 5(1) 5(2) [OF step [symmetric, unfolded Inr]] step same
      by auto
  qed
qed simp_all

text \<open>
  Claim C3 as it is stated fails in three ways, all inside the scope. For a pair \<open>(A, A)\<close>
  the reversed pair is the pair itself, so it is assumed inside the scope. When \<open>(B, A)\<close>
  is on the stack before \<open>(A, B)\<close> is pushed, it stays assumed inside the scope. And a
  \<^verbatim>\<open>with\<close> statement for \<open>(B, A)\<close> nested in the scope pushes it.
\<close>

theorem assume_compatibility_scope_counterexample:
  "\<not> can_assume_compatibility new_checker obj_A obj_A
   \<and> can_assume_compatibility (assume_compatibility_enter new_checker obj_A obj_A) obj_A obj_A
   \<and> \<not> can_assume_compatibility (new_checker\<lparr>assumed_compatibilities := [(obj_B, obj_A)]\<rparr>) obj_A obj_B
   \<and> can_assume_compatibility
       (assume_compatibility_enter (new_checker\<lparr>assumed_compatibilities := [(obj_B, obj_A)]\<rparr>)
          obj_A obj_B) obj_B obj_A
   \<and> \<not> can_assume_compatibility new_checker obj_A obj_B
   \<and> \<not> can_assume_compatibility new_checker obj_B obj_A
   \<and> assume_compatibility_enter (assume_compatibility_enter new_checker obj_A obj_B) obj_B obj_A
       \<in> set (states_block [Assume obj_B obj_A []]
                (assume_compatibility_enter new_checker obj_A obj_B))
   \<and> can_assume_compatibility
       (assume_compatibility_enter (assume_compatibility_enter new_checker obj_A obj_B) obj_B obj_A)
       obj_B obj_A"
  by (simp add: can_assume_compatibility_def assume_compatibility_enter_def new_checker_def
      obj_A_def obj_B_def TypeObject_def)

text \<open>
  Claim C3, amended. For a pair \<open>(A, B)\<close> that is not on the stack, and any properly nested
  work \<open>ws\<close> as the body of the scope: at every state inside the dynamic extent of the
  scope \<open>(A, B)\<close> is assumed, and after the scope it is not. After the scope \<open>(B, A)\<close> is
  not assumed when it was not before. Inside the scope \<open>(B, A)\<close> is assumed at no state
  when \<open>A\<close> and \<open>B\<close> differ, \<open>(B, A)\<close> was not on the stack before and no \<^verbatim>\<open>with\<close>
  statement of the body pushes it. For any other body that leaves the stack as it found
  it, \<open>(A, B)\<close> is assumed at entry and at the end of the body and not after the scope.
\<close>

theorem assume_compatibility_scope:
  assumes "\<not> can_assume_compatibility C A B"
  shows "(\<forall>S\<in>set (states_block ws (assume_compatibility_enter C A B)).
            can_assume_compatibility S A B)
       \<and> \<not> can_assume_compatibility
             (snd (assume_compatibility C A B (\<lambda>C1. run_block ws C1))) A B
       \<and> (\<not> can_assume_compatibility C B A \<longrightarrow>
            \<not> can_assume_compatibility
                (snd (assume_compatibility C A B (\<lambda>C1. run_block ws C1))) B A)
       \<and> (A \<noteq> B \<and> \<not> can_assume_compatibility C B A \<and> (B, A) \<notin> pushed_block ws \<longrightarrow>
            (\<forall>S\<in>set (states_block ws (assume_compatibility_enter C A B)).
               \<not> can_assume_compatibility S B A))
       \<and> (\<forall>body.
            assumed_compatibilities (snd (body (assume_compatibility_enter C A B)))
              = assumed_compatibilities (assume_compatibility_enter C A B)
            \<longrightarrow> can_assume_compatibility (assume_compatibility_enter C A B) A B
              \<and> can_assume_compatibility (snd (body (assume_compatibility_enter C A B))) A B
              \<and> \<not> can_assume_compatibility (snd (assume_compatibility C A B body)) A B)"
proof -
  let ?C1 = "assume_compatibility_enter C A B"
  have e: "assumed_compatibilities ?C1 = assumed_compatibilities C @ [(A, B)]"
    by (simp add: assume_compatibility_enter_def)
  have inside: "\<forall>S\<in>set (states_block ws ?C1). can_assume_compatibility S A B"
  proof
    fix S assume "S \<in> set (states_block ws ?C1)"
    then obtain suffix where "assumed_compatibilities S = assumed_compatibilities ?C1 @ suffix"
      using states_prefix(2) by blast
    then show "can_assume_compatibility S A B"
      using e by (simp add: can_assume_compatibility_def)
  qed
  have bal: "assumed_compatibilities (snd (run_block ws ?C1)) = assumed_compatibilities ?C1"
    by (rule run_stack)
  have after: "assumed_compatibilities (snd (assume_compatibility C A B (\<lambda>C1. run_block ws C1)))
               = assumed_compatibilities C"
    using bal by (simp add: assume_compatibility_balanced_body)
  have a1: "\<not> can_assume_compatibility
             (snd (assume_compatibility C A B (\<lambda>C1. run_block ws C1))) A B"
    using assms after by (simp add: can_assume_compatibility_def)
  have a2: "\<not> can_assume_compatibility
             (snd (assume_compatibility C A B (\<lambda>C1. run_block ws C1))) B A"
    if "\<not> can_assume_compatibility C B A"
    using that after by (simp add: can_assume_compatibility_def)
  have rev: "\<forall>S\<in>set (states_block ws ?C1). \<not> can_assume_compatibility S B A"
    if "A \<noteq> B" "\<not> can_assume_compatibility C B A" "(B, A) \<notin> pushed_block ws"
  proof
    fix S assume "S \<in> set (states_block ws ?C1)"
    then have "set (assumed_compatibilities S)
               \<subseteq> set (assumed_compatibilities ?C1) \<union> pushed_block ws"
      using states_pushed(2) by blast
    then show "\<not> can_assume_compatibility S B A"
      using that e by (auto simp: can_assume_compatibility_def)
  qed
  have gen: "can_assume_compatibility ?C1 A B
           \<and> can_assume_compatibility (snd (body ?C1)) A B
           \<and> \<not> can_assume_compatibility (snd (assume_compatibility C A B body)) A B"
    if b: "assumed_compatibilities (snd (body ?C1)) = assumed_compatibilities ?C1" for body
  proof -
    have "assumed_compatibilities (snd (assume_compatibility C A B body))
          = assumed_compatibilities C"
      using b by (simp add: assume_compatibility_balanced_body)
    then show ?thesis using assms b e by (simp add: can_assume_compatibility_def)
  qed
  show ?thesis using inside a1 a2 rev gen by blast
qed

text \<open>
  On a new checker, with a body that queries the stack and then enters a nested scope
  whose block raises.
\<close>

theorem assume_compatibility_scope_witness:
  "\<not> can_assume_compatibility new_checker obj_A obj_B
   \<and> can_assume_compatibility (assume_compatibility_enter new_checker obj_A obj_B) obj_A obj_B
   \<and> can_assume_compatibility
       (assume_compatibility_enter (assume_compatibility_enter new_checker obj_A obj_B) obj_B obj_B)
       obj_A obj_B
   \<and> \<not> can_assume_compatibility
       (assume_compatibility_enter (assume_compatibility_enter new_checker obj_A obj_B) obj_B obj_B)
       obj_B obj_A
   \<and> \<not> can_assume_compatibility
         (snd (assume_compatibility new_checker obj_A obj_B
                 (\<lambda>C1. run_block [Query obj_A obj_B,
                                   Assume obj_B obj_B [Raise (Exception ''incompatible'')]] C1)))
         obj_A obj_B
   \<and> \<not> can_assume_compatibility
         (snd (assume_compatibility new_checker obj_A obj_B
                 (\<lambda>C1. run_block [Query obj_A obj_B,
                                   Assume obj_B obj_B [Raise (Exception ''incompatible'')]] C1)))
         obj_B obj_A"
proof -
  let ?ws = "[Query obj_A obj_B, Assume obj_B obj_B [Raise (Exception ''incompatible'')]]"
  let ?C1 = "assume_compatibility_enter new_checker obj_A obj_B"
  let ?C2 = "assume_compatibility_enter ?C1 obj_B obj_B"
  have a: "\<not> can_assume_compatibility new_checker obj_A obj_B"
    by (simp add: can_assume_compatibility_def new_checker_def)
  have b: "\<not> can_assume_compatibility new_checker obj_B obj_A"
    by (simp add: can_assume_compatibility_def new_checker_def)
  have ne: "obj_A \<noteq> obj_B" by (simp add: obj_A_def obj_B_def TypeObject_def)
  have np: "(obj_B, obj_A) \<notin> pushed_block ?ws" using ne by simp
  have m1: "?C1 \<in> set (states_block ?ws ?C1)" by simp
  have m2: "?C2 \<in> set (states_block ?ws ?C1)" by simp
  note t = assume_compatibility_scope [OF a, where ws = ?ws]
  have i1: "can_assume_compatibility ?C1 obj_A obj_B" using t m1 by blast
  have i2: "can_assume_compatibility ?C2 obj_A obj_B" using t m2 by blast
  have i3: "\<not> can_assume_compatibility ?C2 obj_B obj_A" using t m2 ne b np by blast
  have o1: "\<not> can_assume_compatibility
         (snd (assume_compatibility new_checker obj_A obj_B (\<lambda>C1. run_block ?ws C1)))
         obj_A obj_B"
    using t by blast
  have o2: "\<not> can_assume_compatibility
         (snd (assume_compatibility new_checker obj_A obj_B (\<lambda>C1. run_block ?ws C1)))
         obj_B obj_A"
    using t b by blast
  show ?thesis using a i1 i2 i3 o1 o2 by simp
qed

subsection \<open>Protocol members from the MRO\<close>

text \<open>
  \<^verbatim>\<open>object\<close>, \<^verbatim>\<open>Generic\<close> and \<^verbatim>\<open>Protocol\<close> contribute no members, and a type whose MRO holds
  nothing else has none.
\<close>

lemma extract_protocol_members_marker:
  "typ = py_object \<or> is_typing_name E (Concrete typ) ''Generic''
     \<or> is_typing_name E (Concrete typ) ''Protocol''
   \<Longrightarrow> extract_protocol_members E typ = Inr {}"
  by (auto simp: extract_protocol_members_def)

lemma extract_all_markers:
  "\<forall>c\<in>set mro. c = py_object \<or> is_typing_name E (Concrete c) ''Generic''
       \<or> is_typing_name E (Concrete c) ''Protocol''
   \<Longrightarrow> extract_all E mro = Inr {}"
  by (induction mro) (auto simp: extract_protocol_members_marker)

text \<open>
  A name of the exclusion set never comes from \<^verbatim>\<open>__dict__\<close>: when one is among the members
  extracted, it is a key of \<^verbatim>\<open>__annotations__\<close>.
\<close>

lemma extract_protocol_members_dict_names:
  assumes "extract_protocol_members E typ = Inr members"
    and "name \<in> members" and "name \<in> EXCLUDED_PROTOCOL_MEMBERS"
  shows "\<exists>a. attr_annotations E typ = Present a \<and> name \<in> set a"
  using assms
  by (cases "attr_annotations E typ"; cases "attr_dict E typ")
     (auto simp: extract_protocol_members_def Let_def split: if_splits sum.splits)

text \<open>
  Claim C5. The names of \<^verbatim>\<open>__annotations__\<close> are added after the exclusion set has been
  subtracted, so they are not filtered. Class 30 of the example is a protocol at runtime
  only and annotates \<^verbatim>\<open>__doc__\<close>: that name, which is in the exclusion set, is among its
  protocol members.
\<close>

theorem runtime_protocol_annotations:
  "extract_protocol_members env_ex 30 = Inr {''meth'', ''__doc__'', ''field''}
   \<and> ''__doc__'' \<in> EXCLUDED_PROTOCOL_MEMBERS
   \<and> build_type_object_result env_ex (Concrete 30)
       = Inr (TypeObject (Concrete 30) {} True {''meth'', ''__doc__'', ''field''})"
proof -
  have e: "extract_protocol_members env_ex 30 = Inr {''meth'', ''__doc__'', ''field''}"
    by (auto simp: env_ex_def extract_protocol_members_def py_object_def
        EXCLUDED_PROTOCOL_MEMBERS_def)
  have m: "extract_protocol_members env_ex 2 = Inr {} \<and> extract_protocol_members env_ex 1 = Inr {}
           \<and> extract_protocol_members env_ex 0 = Inr {}"
    by (simp add: env_ex_def extract_protocol_members_def py_object_def)
  have mro: "get_mro env_ex (Concrete 30) = [30, 2, 1, 0]" by (simp add: env_ex_def)
  have a: "extract_all env_ex (get_mro env_ex (Concrete 30)) = Inr {''meth'', ''__doc__'', ''field''}"
    unfolding mro using e m by simp
  have x: "''__doc__'' \<in> EXCLUDED_PROTOCOL_MEMBERS" by (simp add: EXCLUDED_PROTOCOL_MEMBERS_def)
  have g: "get_additional_bases env_ex (Concrete 30) = Inr {}"
    by (simp add: env_ex_def get_additional_bases_def provider_A_def provider_Y_def)
  have c: "\<not> ts_is_protocol env_ex (Concrete 30)
           \<and> is_instance_of_typing_name env_ex (Concrete 30) ''_ProtocolMeta''
           \<and> safe_getattr (attr_is_protocol env_ex 30) False"
    by (simp add: env_ex_def)
  have b: "build_type_object_result env_ex (Concrete 30)
       = Inr (TypeObject (Concrete 30) {} True {''meth'', ''__doc__'', ''field''})"
    using a g c by simp
  show ?thesis using e x b by simp
qed

subsection \<open>Attribute reads that fail\<close>

text \<open>The classes of an MRO that can be read give members, not an exception.\<close>

lemma extract_protocol_members_readable:
  "readable_class E c \<Longrightarrow> \<exists>m. extract_protocol_members E c = Inr m"
  by (auto simp: readable_class_def extract_protocol_members_def Let_def)

lemma extract_all_readable:
  "\<forall>c\<in>set mro. readable_class E c \<Longrightarrow> \<exists>m. extract_all E mro = Inr m"
proof (induction mro)
  case Nil
  then show ?case by simp
next
  case (Cons c mro)
  then obtain m ms where "extract_protocol_members E c = Inr m" "extract_all E mro = Inr ms"
    using extract_protocol_members_readable by fastforce
  then show ?case by simp
qed

lemma no_provider_raises:
  "\<forall>p\<in>set (providers E). \<not> isl (p k) \<Longrightarrow> \<exists>ab. get_additional_bases E k = Inr ab"
  by (simp add: get_additional_bases_def additional_bases_loop_returns)

text \<open>
  A class that cannot be read gives an exception, and so does an MRO that holds one: the
  builder raises when it extracts the members of a protocol from such an MRO.
\<close>

lemma extract_protocol_members_unreadable:
  "\<not> readable_class E c \<Longrightarrow> isl (extract_protocol_members E c)"
  by (cases "attr_dict E c"; cases "attr_annotations E c")
     (auto simp: readable_class_def extract_protocol_members_def Let_def)

lemma extract_all_unreadable:
  "\<exists>c\<in>set mro. \<not> readable_class E c \<Longrightarrow> isl (extract_all E mro)"
proof (induction mro)
  case Nil
  then show ?case by simp
next
  case (Cons c mro)
  show ?case
  proof (cases "readable_class E c")
    case True
    then have "isl (extract_all E mro)" using Cons by auto
    then show ?thesis by (auto split: sum.splits)
  next
    case False
    then have "isl (extract_protocol_members E c)" by (rule extract_protocol_members_unreadable)
    then show ?thesis by (auto split: sum.splits)
  qed
qed

lemma build_type_object_unreadable:
  assumes "\<not> ts_is_protocol E (Concrete c)"
    and "is_instance_of_typing_name E (Concrete c) ''_ProtocolMeta''"
    and "attr_is_protocol E c = Present True"
    and "\<exists>b\<in>set (get_mro E (Concrete c)). \<not> readable_class E b"
  shows "isl (build_type_object_result E (Concrete c))"
proof -
  have "isl (extract_all E (get_mro E (Concrete c)))"
    using assms(4) by (rule extract_all_unreadable)
  then show ?thesis using assms(1-3) by (auto simp: Let_def split: sum.splits)
qed

text \<open>
  Claim C7 as it is stated fails: reading \<^verbatim>\<open>__dict__\<close> of class 40 of the example raises,
  reading \<^verbatim>\<open>__annotations__\<close> of class 70 raises, no provider raises for either, and for
  both the builder raises what the read raised.
\<close>

theorem build_type_object_broken_class_counterexample:
  "get_additional_bases env_ex (Concrete 40) = Inr {}
   \<and> build_type_object_result env_ex (Concrete 40) = Inl (Exception ''broken'')
   \<and> get_additional_bases env_ex (Concrete 70) = Inr {}
   \<and> build_type_object_result env_ex (Concrete 70) = Inl (Exception ''broken'')"
proof -
  have g: "get_additional_bases env_ex (Concrete 40) = Inr {}
           \<and> get_additional_bases env_ex (Concrete 70) = Inr {}"
    by (simp add: env_ex_def get_additional_bases_def provider_A_def provider_Y_def)
  have e: "extract_protocol_members env_ex 40 = Inl (Exception ''broken'')
           \<and> extract_protocol_members env_ex 70 = Inl (Exception ''broken'')"
    by (simp add: env_ex_def extract_protocol_members_def py_object_def)
  have mro: "get_mro env_ex (Concrete 40) = [40, 2, 1, 0]
             \<and> get_mro env_ex (Concrete 70) = [70, 2, 1, 0]"
    by (simp add: env_ex_def)
  have a: "extract_all env_ex (get_mro env_ex (Concrete 40)) = Inl (Exception ''broken'')
           \<and> extract_all env_ex (get_mro env_ex (Concrete 70)) = Inl (Exception ''broken'')"
    using mro e by simp
  have c: "\<not> ts_is_protocol env_ex (Concrete 40)
           \<and> is_instance_of_typing_name env_ex (Concrete 40) ''_ProtocolMeta''
           \<and> safe_getattr (attr_is_protocol env_ex 40) False
           \<and> \<not> ts_is_protocol env_ex (Concrete 70)
           \<and> is_instance_of_typing_name env_ex (Concrete 70) ''_ProtocolMeta''
           \<and> safe_getattr (attr_is_protocol env_ex 70) False"
    by (simp add: env_ex_def)
  show ?thesis using a g c by simp
qed

text \<open>
  Claim C7, amended. Let no provider raise for the key. When, for a concrete type that is
  a protocol at runtime and not in the stubs, every class of its MRO can be read, the
  builder returns a type object. A read of \<^verbatim>\<open>_is_protocol\<close> that fails (the attribute is
  absent, or the read raises) gives the type object of a class that is not a protocol. On
  an interpreter older than 3.10 a class whose \<^verbatim>\<open>__annotations__\<close> are absent gives the
  names of its \<^verbatim>\<open>__dict__\<close> outside the exclusion set.
\<close>

theorem build_type_object_returns:
  assumes "\<forall>p\<in>set (providers E). \<not> isl (p k)"
  shows "((\<forall>c. k = Concrete c \<and> \<not> ts_is_protocol E k
              \<and> is_instance_of_typing_name E k ''_ProtocolMeta''
              \<and> attr_is_protocol E c = Present True
            \<longrightarrow> (\<forall>b\<in>set (get_mro E k). readable_class E b))
          \<longrightarrow> (\<exists>obj. build_type_object_result E k = Inr obj))
       \<and> (\<forall>c additional_bases. k = Concrete c \<and> \<not> ts_is_protocol E k
             \<and> attr_is_protocol E c \<noteq> Present True
             \<and> get_additional_bases E k = Inr additional_bases
           \<longrightarrow> build_type_object_result E k = Inr (TypeObject k additional_bases False {}))
       \<and> (\<forall>c d. \<not> version_ge_3_10 E \<and> hasattr (attr_annotations E c) = Inr False
             \<and> attr_dict E c = Present d \<and> c \<noteq> py_object
             \<and> \<not> is_typing_name E (Concrete c) ''Generic''
             \<and> \<not> is_typing_name E (Concrete c) ''Protocol''
           \<longrightarrow> extract_protocol_members E c = Inr (set d - EXCLUDED_PROTOCOL_MEMBERS))"
proof -
  obtain ab where ab: "get_additional_bases E k = Inr ab"
    using assms no_provider_raises by blast
  have ret: "\<exists>obj. build_type_object_result E k = Inr obj"
    if rd: "\<forall>c. k = Concrete c \<and> \<not> ts_is_protocol E k
              \<and> is_instance_of_typing_name E k ''_ProtocolMeta''
              \<and> attr_is_protocol E c = Present True
            \<longrightarrow> (\<forall>b\<in>set (get_mro E k). readable_class E b)"
  proof (cases k)
    case (Synthetic name)
    then show ?thesis by (simp add: Let_def)
  next
    case (SuperProxy c t)
    then show ?thesis using ab by simp
  next
    case (Concrete c)
    show ?thesis
    proof (cases "\<not> ts_is_protocol E k \<and> is_instance_of_typing_name E k ''_ProtocolMeta''
                   \<and> safe_getattr (attr_is_protocol E c) False")
      case True
      then have "attr_is_protocol E c = Present True"
        by (cases "attr_is_protocol E c") auto
      with True rd Concrete have "\<forall>b\<in>set (get_mro E k). readable_class E b" by blast
      then obtain m where "extract_all E (get_mro E k) = Inr m"
        using extract_all_readable by blast
      then show ?thesis using Concrete ab True by (simp add: Let_def)
    next
      case False
      then show ?thesis using Concrete ab by (auto simp: Let_def)
    qed
  qed
  have dflt: "build_type_object_result E k = Inr (TypeObject k additional_bases False {})"
    if "k = Concrete c" "\<not> ts_is_protocol E k" "attr_is_protocol E c \<noteq> Present True"
       "get_additional_bases E k = Inr additional_bases" for c additional_bases
  proof -
    have "\<not> safe_getattr (attr_is_protocol E c) False"
      using that(3) by (cases "attr_is_protocol E c") auto
    then show ?thesis using that by (simp add: Let_def)
  qed
  have ann: "extract_protocol_members E c = Inr (set d - EXCLUDED_PROTOCOL_MEMBERS)"
    if "\<not> version_ge_3_10 E" "hasattr (attr_annotations E c) = Inr False"
       "attr_dict E c = Present d"
       "c \<noteq> py_object" "\<not> is_typing_name E (Concrete c) ''Generic''"
       "\<not> is_typing_name E (Concrete c) ''Protocol''" for c d
    using that by (simp add: extract_protocol_members_def Let_def)
  show ?thesis using ret dflt ann by blast
qed

text \<open>
  Class 50 of the example on an interpreter older than 3.10, and class 60, whose
  \<^verbatim>\<open>_is_protocol\<close> cannot be read.
\<close>

theorem build_type_object_returns_witness:
  "\<not> isl (build_type_object_result (env_ex\<lparr>version_ge_3_10 := False\<rparr>) (Concrete 50))
   \<and> build_type_object_result (env_ex\<lparr>version_ge_3_10 := False\<rparr>) (Concrete 50)
     = Inr (TypeObject (Concrete 50) {} True {''meth''})
   \<and> build_type_object_result env_ex (Concrete 60) = Inr (TypeObject (Concrete 60) {} False {})"
proof -
  let ?E = "env_ex\<lparr>version_ge_3_10 := False\<rparr>"
  have p: "\<forall>p\<in>set (providers ?E). \<not> isl (p (Concrete 50))"
    by (simp add: env_ex_def provider_A_def provider_Y_def)
  have mro: "get_mro ?E (Concrete 50) = [50, 2, 1, 0]" by (simp add: env_ex_def)
  have rd: "\<forall>b\<in>set (get_mro ?E (Concrete 50)). readable_class ?E b"
    unfolding mro by (simp add: readable_class_def env_ex_def py_object_def)
  then have h: "\<forall>c. Concrete 50 = Concrete c \<and> \<not> ts_is_protocol ?E (Concrete 50)
             \<and> is_instance_of_typing_name ?E (Concrete 50) ''_ProtocolMeta''
             \<and> attr_is_protocol ?E c = Present True
           \<longrightarrow> (\<forall>b\<in>set (get_mro ?E (Concrete 50)). readable_class ?E b)"
    by blast
  note t50 = build_type_object_returns [OF p]
  have r50: "\<exists>obj. build_type_object_result ?E (Concrete 50) = Inr obj"
    using t50 h by blast
  then have n50: "\<not> isl (build_type_object_result ?E (Concrete 50))" by auto
  have pre: "\<not> version_ge_3_10 ?E \<and> hasattr (attr_annotations ?E 50) = Inr False
             \<and> attr_dict ?E 50 = Present [''__module__'', ''meth''] \<and> 50 \<noteq> py_object
             \<and> \<not> is_typing_name ?E (Concrete 50) ''Generic''
             \<and> \<not> is_typing_name ?E (Concrete 50) ''Protocol''"
    by (simp add: env_ex_def py_object_def)
  have "extract_protocol_members ?E 50
        = Inr (set [''__module__'', ''meth''] - EXCLUDED_PROTOCOL_MEMBERS)"
    using t50 pre by blast
  then have e: "extract_protocol_members ?E 50 = Inr {''meth''}"
    by (auto simp: EXCLUDED_PROTOCOL_MEMBERS_def)
  have m: "extract_protocol_members ?E 2 = Inr {} \<and> extract_protocol_members ?E 1 = Inr {}
           \<and> extract_protocol_members ?E 0 = Inr {}"
    by (simp add: env_ex_def extract_protocol_members_def py_object_def)
  have a: "extract_all ?E (get_mro ?E (Concrete 50)) = Inr {''meth''}"
    unfolding mro using e m by simp
  have g: "get_additional_bases ?E (Concrete 50) = Inr {}"
    by (simp add: env_ex_def get_additional_bases_def provider_A_def provider_Y_def)
  have c: "\<not> ts_is_protocol ?E (Concrete 50)
           \<and> is_instance_of_typing_name ?E (Concrete 50) ''_ProtocolMeta''
           \<and> safe_getattr (attr_is_protocol ?E 50) False"
    by (simp add: env_ex_def)
  have b50: "build_type_object_result ?E (Concrete 50)
             = Inr (TypeObject (Concrete 50) {} True {''meth''})"
    using a g c by simp
  have p60: "\<forall>p\<in>set (providers env_ex). \<not> isl (p (Concrete 60))"
    by (simp add: env_ex_def provider_A_def provider_Y_def)
  note t60 = build_type_object_returns [OF p60]
  have pre60: "\<not> ts_is_protocol env_ex (Concrete 60)
               \<and> attr_is_protocol env_ex 60 \<noteq> Present True
               \<and> get_additional_bases env_ex (Concrete 60) = Inr {}"
    by (simp add: env_ex_def get_additional_bases_def provider_A_def provider_Y_def)
  have b60: "build_type_object_result env_ex (Concrete 60)
             = Inr (TypeObject (Concrete 60) {} False {})"
    using t60 pre60 by blast
  show ?thesis using n50 b50 b60 by simp
qed

subsection \<open>Runs of the cache\<close>













end
